theory Spec2Isabelle
  imports Main "HOL-Library.Multiset" "HOL-Library.List_Lexorder"
begin

section \<open>Strings\<close>

text \<open>
  A Python \<open>str\<close> is a sequence of Unicode code points. The source compares against
  Japanese column names and calls \<open>str.strip\<close>, \<open>int\<close> and \<open>strptime\<close>, which all
  classify characters by code point, so a string is modelled as the list of its code
  points. \<open>str\<close> turns an ASCII literal into such a list.
\<close>

type_synonym uchar = nat
type_synonym ustr = "uchar list"

definition str :: "string \<Rightarrow> ustr" where
  "str s = map of_char s"


section \<open>Library functions on strings\<close>

text \<open>
  \<open>str.strip()\<close> removes, from both ends, the characters for which \<open>str.isspace\<close>
  holds: the code points below.
\<close>

definition isspace :: "uchar \<Rightarrow> bool" where
  "isspace c \<longleftrightarrow>
     (9 \<le> c \<and> c \<le> 13) \<or> (28 \<le> c \<and> c \<le> 32) \<or> c = 0x85 \<or> c = 0xA0 \<or> c = 0x1680
     \<or> (0x2000 \<le> c \<and> c \<le> 0x200A) \<or> c = 0x2028 \<or> c = 0x2029 \<or> c = 0x202F
     \<or> c = 0x205F \<or> c = 0x3000"

definition strip :: "ustr \<Rightarrow> ustr" where
  "strip s = rev (dropWhile isspace (rev (dropWhile isspace s)))"

text \<open>\<open>s.replace(c, "")\<close> for a one-character \<open>c\<close>: every occurrence is deleted.\<close>

definition remove_all :: "uchar \<Rightarrow> ustr \<Rightarrow> ustr" where
  "remove_all c s = filter (\<lambda>x. x \<noteq> c) s"

text \<open>\<open>s.replace(c, d)\<close> for one-character \<open>c\<close> and \<open>d\<close>.\<close>

definition replace_char :: "uchar \<Rightarrow> uchar \<Rightarrow> ustr \<Rightarrow> ustr" where
  "replace_char c d s = map (\<lambda>x. if x = c then d else x) s"

text \<open>
  The decimal digits of Unicode (general category Nd, Unicode 14.0) come in runs of ten
  consecutive code points, the digit's value being the offset in its run; the list holds
  the first code point of every run. \<open>int\<close> and the \<open>\d\<close> of \<open>strptime\<close> accept all of
  them. No result below depends on the table beyond the ASCII digits.
\<close>

definition decimal_runs :: "uchar list" where
  "decimal_runs =
    [0x30, 0x660, 0x6F0, 0x7C0, 0x966, 0x9E6, 0xA66, 0xAE6, 0xB66, 0xBE6, 0xC66, 0xCE6,
     0xD66, 0xDE6, 0xE50, 0xED0, 0xF20, 0x1040, 0x1090, 0x17E0, 0x1810, 0x1946, 0x19D0,
     0x1A80, 0x1A90, 0x1B50, 0x1BB0, 0x1C40, 0x1C50, 0xA620, 0xA8D0, 0xA900, 0xA9D0,
     0xA9F0, 0xAA50, 0xABF0, 0xFF10, 0x104A0, 0x10D30, 0x11066, 0x110F0, 0x11136,
     0x111D0, 0x112F0, 0x11450, 0x114D0, 0x11650, 0x116C0, 0x11730, 0x118E0, 0x11950,
     0x11C50, 0x11D50, 0x11DA0, 0x16A60, 0x16AC0, 0x16B50, 0x1D7CE, 0x1D7D8, 0x1D7E2,
     0x1D7EC, 0x1D7F6, 0x1E140, 0x1E2F0, 0x1E950, 0x1FBF0]"

definition decimal :: "uchar \<Rightarrow> nat option" where
  "decimal c =
     (if 48 \<le> c \<and> c \<le> 57 then Some (c - 48)
      else if c < 128 then None
      else (case find (\<lambda>b. b \<le> c \<and> c < b + 10) decimal_runs of
              None \<Rightarrow> None
            | Some b \<Rightarrow> Some (c - b)))"

datatype exn = ValueError | OverflowError

text \<open>
  \<open>int(s)\<close> for a string \<open>s\<close>, base ten: whitespace around the number is skipped (the
  ASCII blanks and the non-ASCII spaces), then an optional sign, then decimal digits in
  which single underscores may stand between two digits. Anything else raises
  \<open>ValueError\<close>, and so does a number of more digits than the interpreter's limit
  (\<open>sys.int_info.default_max_str_digits\<close>). The result is unbounded.
\<close>

definition max_str_digits :: nat where
  "max_str_digits = 4300"

definition int_space :: "uchar \<Rightarrow> bool" where
  "int_space c \<longleftrightarrow> (9 \<le> c \<and> c \<le> 13) \<or> c = 32 \<or> (128 \<le> c \<and> isspace c)"

fun int_digits :: "nat \<Rightarrow> bool \<Rightarrow> ustr \<Rightarrow> nat option" where
  "int_digits acc prev [] = (if prev then Some acc else None)"
| "int_digits acc prev (c # cs) =
     (if c = 95 then (if prev then int_digits acc False cs else None)
      else (case decimal c of
              None \<Rightarrow> None
            | Some d \<Rightarrow> int_digits (10 * acc + d) True cs))"

definition py_int :: "ustr \<Rightarrow> exn + int" where
  "py_int s =
     (let t = rev (dropWhile int_space (rev (dropWhile int_space s)));
          (neg, body) = (case t of
                           [] \<Rightarrow> (False, [])
                         | c # cs \<Rightarrow> if c = 45 then (True, cs)
                                     else if c = 43 then (False, cs) else (False, t))
      in case int_digits 0 False body of
           None \<Rightarrow> Inl ValueError
         | Some n \<Rightarrow>
             if max_str_digits < length (remove_all 95 body) then Inl ValueError
             else Inr (if neg then - int n else int n))"


text \<open>
  \<open>datetime.strptime(value, "%Y<sep>%m<sep>%d")\<close>. The three formats of the source
  differ in the separator only, so the format is given by its separator. The library
  compiles the format to the regular expression
  \<^verbatim>\<open>(?P<Y>\d\d\d\d)<sep>(?P<m>1[0-2]|0[1-9]|[1-9])<sep>(?P<d>3[0-1]|[1-2]\d|0[1-9]|[1-9]| [1-9])\<close>,
  matches it at the start of the string, and raises \<open>ValueError\<close> when there is no
  match, when characters remain after the match, or when the numbers are no calendar
  date. The alternatives are tried in order; an earlier alternative that matches is
  never given up for a later one, because the only overlapping pair (\<open>1[0-2]\<close> and
  \<open>[1-9]\<close> of the month) would need a digit where the separator stands.
\<close>

record datetime =
  year :: nat
  month :: nat
  day :: nat

definition match_Y :: "ustr \<Rightarrow> (nat \<times> ustr) option" where
  "match_Y s =
     (case s of
        a # b # c # d # r \<Rightarrow>
          (case (decimal a, decimal b, decimal c, decimal d) of
             (Some x, Some y, Some z, Some w) \<Rightarrow> Some (1000 * x + 100 * y + 10 * z + w, r)
           | _ \<Rightarrow> None)
      | _ \<Rightarrow> None)"

definition match_m :: "ustr \<Rightarrow> (nat \<times> ustr) option" where
  "match_m s =
     (case s of
        [] \<Rightarrow> None
      | [a] \<Rightarrow> if 49 \<le> a \<and> a \<le> 57 then Some (a - 48, []) else None
      | a # b # r \<Rightarrow>
          if a = 49 \<and> 48 \<le> b \<and> b \<le> 50 then Some (10 + (b - 48), r)
          else if a = 48 \<and> 49 \<le> b \<and> b \<le> 57 then Some (b - 48, r)
          else if 49 \<le> a \<and> a \<le> 57 then Some (a - 48, b # r)
          else None)"

definition match_d :: "ustr \<Rightarrow> (nat \<times> ustr) option" where
  "match_d s =
     (case s of
        [] \<Rightarrow> None
      | [a] \<Rightarrow> if 49 \<le> a \<and> a \<le> 57 then Some (a - 48, []) else None
      | a # b # r \<Rightarrow>
          if a = 51 \<and> 48 \<le> b \<and> b \<le> 49 then Some (30 + (b - 48), r)
          else if 49 \<le> a \<and> a \<le> 50 \<and> decimal b \<noteq> None
            then Some (10 * (a - 48) + (case decimal b of Some v \<Rightarrow> v | None \<Rightarrow> 0), r)
          else if a = 48 \<and> 49 \<le> b \<and> b \<le> 57 then Some (b - 48, r)
          else if 49 \<le> a \<and> a \<le> 57 then Some (a - 48, b # r)
          else if a = 32 \<and> 49 \<le> b \<and> b \<le> 57 then Some (b - 48, r)
          else None)"

definition match_sep :: "uchar \<Rightarrow> ustr \<Rightarrow> ustr option" where
  "match_sep sep s = (case s of [] \<Rightarrow> None | c # r \<Rightarrow> if c = sep then Some r else None)"

definition is_leap :: "nat \<Rightarrow> bool" where
  "is_leap y \<longleftrightarrow> y mod 4 = 0 \<and> (y mod 100 \<noteq> 0 \<or> y mod 400 = 0)"

definition days_in_month :: "nat \<Rightarrow> nat \<Rightarrow> nat" where
  "days_in_month y m =
     (if m = 2 then (if is_leap y then 29 else 28)
      else if m = 4 \<or> m = 6 \<or> m = 9 \<or> m = 11 then 30
      else 31)"

definition strptime :: "ustr \<Rightarrow> uchar \<Rightarrow> exn + datetime" where
  "strptime data_string sep =
     (case match_Y data_string of
        None \<Rightarrow> Inl ValueError
      | Some (y, r1) \<Rightarrow>
     (case match_sep sep r1 of
        None \<Rightarrow> Inl ValueError
      | Some r2 \<Rightarrow>
     (case match_m r2 of
        None \<Rightarrow> Inl ValueError
      | Some (m, r3) \<Rightarrow>
     (case match_sep sep r3 of
        None \<Rightarrow> Inl ValueError
      | Some r4 \<Rightarrow>
     (case match_d r4 of
        None \<Rightarrow> Inl ValueError
      | Some (d, r5) \<Rightarrow>
          if r5 \<noteq> [] then Inl ValueError
          else if y < 1 \<or> 9999 < y \<or> m < 1 \<or> 12 < m \<or> d < 1 \<or> days_in_month y m < d
            then Inl ValueError
          else Inr \<lparr>year = y, month = m, day = d\<rparr>)))))"

text \<open>
  \<open>dt.strftime("%Y-%m-%d")\<close>. The interpreter hands the format to the C library, whose
  \<open>%Y\<close> is the year as a decimal number without padding: a year below 1000 comes out
  with fewer than four digits (\<open>999-12-31\<close>). Month and day have two digits each, zero
  padded.
\<close>

fun dec :: "nat \<Rightarrow> ustr" where
  "dec n = (if n < 10 then [48 + n] else dec (n div 10) @ [48 + n mod 10])"

declare dec.simps [simp del]

definition pad2 :: "nat \<Rightarrow> ustr" where
  "pad2 n = [48 + n div 10 mod 10, 48 + n mod 10]"

definition strftime :: "datetime \<Rightarrow> ustr" where
  "strftime dt = dec (year dt) @ [45] @ pad2 (month dt) @ [45] @ pad2 (day dt)"

section \<open>normalizer.py\<close>

text \<open>The Japanese column names and messages of the source, by code point.\<close>

definition COLUMN_MAP :: "(ustr \<times> ustr) list" where
  "COLUMN_MAP =
    [(str ''date'', str ''date''),
     (str ''day'', str ''date''),
     ([0x65E5, 0x4ED8], str ''date''),
     (str ''product'', str ''item''),
     (str ''item_name'', str ''item''),
     ([0x5546, 0x54C1, 0x540D], str ''item''),
     (str ''price'', str ''price''),
     ([0x5358, 0x4FA1], str ''price''),
     (str ''quantity'', str ''quantity''),
     ([0x6570, 0x91CF], str ''quantity''),
     (str ''amount'', str ''amount''),
     ([0x91D1, 0x984D], str ''amount'')]"

record NormalizedRow =
  date :: ustr
  store :: ustr
  item :: ustr
  quantity :: int
  amount :: int

text \<open>
  \<open>_to_int\<close>. The \<open>try\<close> catches \<open>ValueError\<close> only; any other exception would leave the
  function.
\<close>

definition to_int :: "ustr \<Rightarrow> exn + int option" where
  "to_int v =
     (let v1 = strip v in
      if v1 = [] then Inr None
      else (case py_int (remove_all 44 v1) of
              Inr n \<Rightarrow> Inr (Some n)
            | Inl e \<Rightarrow> if e = ValueError then Inr None else Inl e))"

text \<open>\<open>_parse_date\<close>: the loop over the three patterns, \<open>-\<close>, \<open>/\<close> and \<open>.\<close>.\<close>

definition patterns :: "uchar list" where
  "patterns = [45, 47, 46]"

fun try_patterns :: "ustr \<Rightarrow> uchar list \<Rightarrow> exn + ustr option" where
  "try_patterns v [] = Inr None"
| "try_patterns v (p # ps) =
     (case strptime v p of
        Inr dt \<Rightarrow> Inr (Some (strftime dt))
      | Inl e \<Rightarrow> if e = ValueError then try_patterns v ps else Inl e)"

definition parse_date :: "ustr \<Rightarrow> exn + ustr option" where
  "parse_date v =
     (let v1 = strip v in
      if v1 = [] then Inr None else try_patterns v1 patterns)"

text \<open>
  The raw row is a dictionary from column name to value, iterated in insertion order:
  a list of pairs. The first loop of \<open>normalize_row\<close> builds \<open>unified\<close>.
\<close>

fun unify :: "(ustr \<times> ustr) list \<Rightarrow> (ustr \<rightharpoonup> ustr) \<Rightarrow> (ustr \<rightharpoonup> ustr)" where
  "unify [] unified = unified"
| "unify ((k, v) # raw) unified =
     (case map_of COLUMN_MAP (strip k) of
        None \<Rightarrow> unify raw unified
      | Some key \<Rightarrow>
          if key \<noteq> [] then unify raw (unified(key \<mapsto> strip v)) else unify raw unified)"

text \<open>\<open>d.get(k, default)\<close>.\<close>

definition get_or :: "('k \<rightharpoonup> 'v) \<Rightarrow> 'k \<Rightarrow> 'v \<Rightarrow> 'v" where
  "get_or d k dflt = (case d k of None \<Rightarrow> dflt | Some v \<Rightarrow> v)"

definition msg_date :: ustr where
  "msg_date = str ''date'' @ [0x304C, 0x4E0D, 0x6B63, 47, 0x7A7A, 0x3067, 0x3059]"

definition msg_item :: ustr where
  "msg_item = str ''item'' @ [0x304C, 0x7A7A, 0x3067, 0x3059]"

definition msg_quantity :: ustr where
  "msg_quantity = str ''quantity'' @ [0x304C, 0x4E0D, 0x6B63, 47, 0x7A7A, 0x3067, 0x3059]"

definition msg_amount :: ustr where
  "msg_amount = str ''amount'' @ [0x3082] @ str ''price''
     @ [0x3082, 0x4E0D, 0x6B63, 47, 0x7A7A, 0x3067, 0x3059,
        0xFF08, 0x8A08, 0x7B97, 0x3067, 0x304D, 0x307E, 0x305B, 0x3093, 0xFF09]"

text \<open>
  \<open>normalize_row\<close>. The five values are computed first, in the order of the source, then
  checked. The result is the pair of the source; \<open>Inl\<close> is an exception leaving the
  function.
\<close>

definition normalize_row ::
  "(ustr \<times> ustr) list \<Rightarrow> ustr \<Rightarrow> exn + (NormalizedRow option \<times> ustr option)" where
  "normalize_row raw st =
     (let unified = unify raw Map.empty in
      case parse_date (get_or unified (str ''date'') []) of
        Inl e \<Rightarrow> Inl e
      | Inr d \<Rightarrow>
     (let it = strip (get_or unified (str ''item'') []) in
      case to_int (get_or unified (str ''quantity'') []) of
        Inl e \<Rightarrow> Inl e
      | Inr qty \<Rightarrow>
     (case to_int (get_or unified (str ''amount'') []) of
        Inl e \<Rightarrow> Inl e
      | Inr amt \<Rightarrow>
     (case to_int (get_or unified (str ''price'') []) of
        Inl e \<Rightarrow> Inl e
      | Inr price \<Rightarrow>
     (case d of
        None \<Rightarrow> Inr (None, Some msg_date)
      | Some d' \<Rightarrow>
          if it = [] then Inr (None, Some msg_item)
          else (case qty of
                  None \<Rightarrow> Inr (None, Some msg_quantity)
                | Some q \<Rightarrow>
                    (case amt of
                       Some a \<Rightarrow>
                         Inr (Some \<lparr>date = d', store = st, item = it, quantity = q, amount = a\<rparr>, None)
                     | None \<Rightarrow>
                         (case price of
                            None \<Rightarrow> Inr (None, Some msg_amount)
                          | Some p \<Rightarrow>
                              Inr (Some \<lparr>date = d', store = st, item = it, quantity = q,
                                         amount = p * q\<rparr>, None)))))))))"

section \<open>aggregator.py\<close>

record AggregationResult =
  by_store :: "(ustr \<times> int) list"
  by_item :: "(ustr \<times> int) list"

text \<open>
  \<open>d[k] += a\<close> on a \<open>defaultdict(int)\<close>: a missing key is first inserted with the value
  \<open>0\<close>, at the end of the dictionary's insertion order; a present key keeps its place.
\<close>

fun dict_add :: "('k \<times> int) list \<Rightarrow> 'k \<Rightarrow> int \<Rightarrow> ('k \<times> int) list" where
  "dict_add [] k a = [(k, 0 + a)]"
| "dict_add ((k', v) # d) k a =
     (if k' = k then (k', v + a) # d else (k', v) # dict_add d k a)"

fun aggregate_loop :: "NormalizedRow list \<Rightarrow> AggregationResult \<Rightarrow> AggregationResult" where
  "aggregate_loop [] acc = acc"
| "aggregate_loop (r # rows) acc =
     aggregate_loop rows
       \<lparr>by_store = dict_add (by_store acc) (store r) (amount r),
        by_item = dict_add (by_item acc) (item r) (amount r)\<rparr>"

definition aggregate :: "NormalizedRow list \<Rightarrow> AggregationResult" where
  "aggregate rows = aggregate_loop rows \<lparr>by_store = [], by_item = []\<rparr>"

text \<open>The sum of a dictionary's values, \<open>sum(d.values())\<close>.\<close>

definition values_sum :: "('k \<times> int) list \<Rightarrow> int" where
  "values_sum d = sum_list (map snd d)"

section \<open>csv_loader.py\<close>

text \<open>
  A path is given by its final component, the file name. \<open>Path.stem\<close> is the name
  up to its last dot, unless that dot is the first or the last character.
\<close>

definition rfind :: "uchar \<Rightarrow> ustr \<Rightarrow> int" where
  "rfind c s =
     (if c \<in> set s then int (length s) - 1 - int (length (takeWhile (\<lambda>x. x \<noteq> c) (rev s)))
      else - 1)"

definition stem :: "ustr \<Rightarrow> ustr" where
  "stem name =
     (let i = rfind 46 name in
      if 0 < i \<and> i < int (length name) - 1 then take (nat i) name else name)"

text \<open>\<open>s.split(c)\<close> and \<open>sep.join(parts)\<close>.\<close>

fun split :: "uchar \<Rightarrow> ustr \<Rightarrow> ustr list" where
  "split c [] = [[]]"
| "split c (x # xs) =
     (if x = c then [] # split c xs
      else (case split c xs of [] \<Rightarrow> [[x]] | p # ps \<Rightarrow> (x # p) # ps))"

fun join :: "ustr \<Rightarrow> ustr list \<Rightarrow> ustr" where
  "join sep [] = []"
| "join sep [p] = p"
| "join sep (p # q # ps) = p @ sep @ join sep (q # ps)"

definition infer_store_name :: "ustr \<Rightarrow> ustr" where
  "infer_store_name csv_name =
     (let name = stem csv_name; parts = split 95 name in
      if 3 \<le> length parts then join [95] (take (length parts - 2) parts) else name)"

text \<open>
  \<open>list_input_csvs\<close>. The directory is given by the names it holds, \<open>None\<close> when it does
  not exist. For a month without pattern metacharacters, the pattern
  \<open>*_<suffix>.csv\<close> matches the names that end with \<open>_<suffix>.csv\<close>.
\<close>

definition endswith :: "ustr \<Rightarrow> ustr \<Rightarrow> bool" where
  "endswith s suf \<longleftrightarrow> length suf \<le> length s \<and> drop (length s - length suf) s = suf"

definition list_input_csvs :: "ustr list option \<Rightarrow> ustr \<Rightarrow> ustr list" where
  "list_input_csvs input_dir mon =
     (let month_suffix = replace_char 45 95 mon in
      case input_dir of
        None \<Rightarrow> []
      | Some names \<Rightarrow>
          sort (filter (\<lambda>n. endswith n ([95] @ month_suffix @ str ''.csv'')) names))"

section \<open>invoice_generator.py\<close>

text \<open>
  A finite \<open>float\<close> (an IEEE 754 double) is a pair \<open>(m, e)\<close> standing for \<open>m * 2 ^ e\<close>.
  Every operation computes the exact result and rounds it to 53 significant bits, to
  nearest, ties to even. Results too small for a normal double are rounded more coarsely
  by the hardware; they are below one half in magnitude either way, so \<open>round\<close> takes
  them to \<open>0\<close> here as there.
\<close>

type_synonym double = "int \<times> int"

fun bit_length :: "nat \<Rightarrow> nat" where
  "bit_length n = (if n = 0 then 0 else Suc (bit_length (n div 2)))"

declare bit_length.simps [simp del]

text \<open>\<open>m / 2 ^ k\<close> rounded to the nearest integer, ties to the even one.\<close>

definition round_half_even :: "int \<Rightarrow> nat \<Rightarrow> int" where
  "round_half_even m k =
     (let q = m div 2 ^ k; r = 2 * (m mod 2 ^ k) in
      if r < 2 ^ k then q
      else if 2 ^ k < r then q + 1
      else if even q then q else q + 1)"

definition round53 :: "double \<Rightarrow> double" where
  "round53 x =
     (case x of (m, e) \<Rightarrow>
        let n = bit_length (nat \<bar>m\<bar>) in
        if n \<le> 53 then (m, e) else (round_half_even m (n - 53), e + int (n - 53)))"

definition overflows :: "double \<Rightarrow> bool" where
  "overflows x \<longleftrightarrow> (case x of (m, e) \<Rightarrow> 1024 < int (bit_length (nat \<bar>m\<bar>)) + e)"

text \<open>\<open>float(n)\<close> for an \<open>int\<close>, as the mixed product \<open>subtotal * tax_rate\<close> converts it.\<close>

definition float_of_int :: "int \<Rightarrow> exn + double" where
  "float_of_int n = (let x = round53 (n, 0) in if overflows x then Inl OverflowError else Inr x)"

text \<open>The product of two finite doubles; \<open>None\<close> is an infinity.\<close>

definition float_mul :: "double \<Rightarrow> double \<Rightarrow> double option" where
  "float_mul x y =
     (case (x, y) of ((m1, e1), (m2, e2)) \<Rightarrow>
        let p = round53 (m1 * m2, e1 + e2) in
        if overflows p then None else Some p)"

text \<open>\<open>round(x)\<close> for a finite float: to the nearest integer, ties to the even one.\<close>

definition py_round :: "double \<Rightarrow> int" where
  "py_round x =
     (case x of (m, e) \<Rightarrow> if 0 \<le> e then m * 2 ^ nat e else round_half_even m (nat (- e)))"

text \<open>The double nearest to \<open>0.10\<close>: \<open>0x1.999999999999ap-4\<close>.\<close>

definition tax_rate_010 :: double where
  "tax_rate_010 = (3602879701896397, - 55)"

text \<open>\<open>_calc_tax\<close>: \<open>int(round(subtotal * tax_rate))\<close>; \<open>round\<close> of an infinity raises.\<close>

definition calc_tax :: "int \<Rightarrow> double \<Rightarrow> exn + int" where
  "calc_tax sub rate =
     (case float_of_int sub of
        Inl e \<Rightarrow> Inl e
      | Inr x \<Rightarrow>
          (case float_mul x rate of
             None \<Rightarrow> Inl OverflowError
           | Some p \<Rightarrow> Inr (py_round p)))"

definition make_invoice_no :: "ustr \<Rightarrow> ustr \<Rightarrow> ustr" where
  "make_invoice_no st mon =
     (let yyyymm = remove_all 45 mon; safe = replace_char 32 95 st in
      str ''INV-'' @ yyyymm @ [45] @ safe)"

record Invoice =
  invoice_no :: ustr
  issue_date :: ustr
  bill_to :: ustr
  subtotal :: int
  tax_rate :: double
  tax :: int
  total :: int

text \<open>\<open>build_invoices\<close>; \<open>issue\<close> is today's date, already formatted.\<close>

fun build_invoices :: "(ustr \<times> int) list \<Rightarrow> ustr \<Rightarrow> double \<Rightarrow> ustr \<Rightarrow> exn + Invoice list" where
  "build_invoices [] mon rate issue = Inr []"
| "build_invoices ((st, sub) # summary_rows) mon rate issue =
     (case calc_tax sub rate of
        Inl e \<Rightarrow> Inl e
      | Inr t \<Rightarrow>
          (case build_invoices summary_rows mon rate issue of
             Inl e \<Rightarrow> Inl e
           | Inr invoices \<Rightarrow>
               Inr (\<lparr>invoice_no = make_invoice_no st mon, issue_date = issue, bill_to = st,
                     subtotal = sub, tax_rate = rate, tax = t, total = sub + t\<rparr> # invoices)))"



section \<open>Properties named by the specification\<close>

text \<open>The textual form \<open>YYYY-MM-DD\<close>: ten characters, ASCII digits around two hyphens.\<close>

definition is_digit :: "uchar \<Rightarrow> bool" where
  "is_digit c \<longleftrightarrow> 48 \<le> c \<and> c \<le> 57"

definition is_iso_date :: "ustr \<Rightarrow> bool" where
  "is_iso_date s \<longleftrightarrow>
     length s = 10 \<and> list_all is_digit (take 4 s) \<and> s ! 4 = 45
     \<and> list_all is_digit (take 2 (drop 5 s)) \<and> s ! 7 = 45 \<and> list_all is_digit (drop 8 s)"

section \<open>Aggregation: conservation and order-independence\<close>

lemma values_sum_dict_add: "values_sum (dict_add d k a) = values_sum d + a"
  by (induction d) (auto simp: values_sum_def)

lemma aggregate_loop_sums:
  "values_sum (by_store (aggregate_loop rows acc)) = values_sum (by_store acc) + sum_list (map amount rows)
   \<and> values_sum (by_item (aggregate_loop rows acc)) = values_sum (by_item acc) + sum_list (map amount rows)"
  by (induction rows arbitrary: acc) (simp_all add: values_sum_dict_add)

text \<open>
  C1. Conservation: for every list of records, the per-store totals and the per-item
  totals returned by \<open>aggregate\<close> both sum to the sum of the records' amounts; for the
  empty list both dictionaries are empty.
\<close>

theorem aggregate_conservation:
  "values_sum (by_store (aggregate rows)) = values_sum (by_item (aggregate rows))
   \<and> values_sum (by_item (aggregate rows)) = sum_list (map amount rows)
   \<and> by_store (aggregate []) = [] \<and> by_item (aggregate []) = []"
  using aggregate_loop_sums [of rows "\<lparr>by_store = [], by_item = []\<rparr>"]
  by (simp add: aggregate_def values_sum_def)

lemma map_of_dict_add:
  "map_of (dict_add d k a) = (map_of d)(k \<mapsto> (case map_of d k of None \<Rightarrow> 0 | Some v \<Rightarrow> v) + a)"
  by (induction d) (auto simp: fun_eq_iff)

lemma aggregate_loop_lookup:
  "map_of (by_store (aggregate_loop rows acc)) k =
     (if k \<in> store ` set rows \<or> k \<in> dom (map_of (by_store acc))
      then Some ((case map_of (by_store acc) k of None \<Rightarrow> 0 | Some v \<Rightarrow> v)
                 + sum_list (map amount (filter (\<lambda>r. store r = k) rows)))
      else None)"
proof (induction rows arbitrary: acc)
  case Nil
  then show ?case by (auto split: option.splits)
next
  case (Cons r rows)
  show ?case
    by (simp add: Cons.IH map_of_dict_add) (auto split: option.splits)
qed

lemma aggregate_loop_lookup_item:
  "map_of (by_item (aggregate_loop rows acc)) k =
     (if k \<in> item ` set rows \<or> k \<in> dom (map_of (by_item acc))
      then Some ((case map_of (by_item acc) k of None \<Rightarrow> 0 | Some v \<Rightarrow> v)
                 + sum_list (map amount (filter (\<lambda>r. item r = k) rows)))
      else None)"
proof (induction rows arbitrary: acc)
  case Nil
  then show ?case by (auto split: option.splits)
next
  case (Cons r rows)
  show ?case
    by (simp add: Cons.IH map_of_dict_add) (auto split: option.splits)
qed

lemma sum_filter_mset:
  "sum_list (map f (filter P xs)) = sum_mset (image_mset f (filter_mset P (mset xs)))"
  by (induction xs) auto

text \<open>
  C2. Order-independence: two lists of records that are permutations of each other give
  the same totals, as mappings from key to integer (the equality of Python dictionaries,
  which ignores insertion order). All sums are sums of unbounded integers.
\<close>

theorem aggregate_order_independent:
  assumes "mset xs = mset ys"
  shows "map_of (by_store (aggregate xs)) = map_of (by_store (aggregate ys))
       \<and> map_of (by_item (aggregate xs)) = map_of (by_item (aggregate ys))"
proof -
  from assms have s: "set xs = set ys" by (rule mset_eq_setD)
  have "map_of (by_store (aggregate xs)) k = map_of (by_store (aggregate ys)) k" for k
    by (simp add: aggregate_def aggregate_loop_lookup sum_filter_mset assms s)
  moreover have "map_of (by_item (aggregate xs)) k = map_of (by_item (aggregate ys)) k" for k
    by (simp add: aggregate_def aggregate_loop_lookup_item sum_filter_mset assms s)
  ultimately show ?thesis by (simp add: fun_eq_iff)
qed

theorem aggregate_order_independent_witness:
  "mset [\<lparr>date = str ''2026-01-05'', store = str ''A'', item = str ''tea'', quantity = 1, amount = 100\<rparr>,
         \<lparr>date = str ''2026-01-06'', store = str ''B'', item = str ''tea'', quantity = 1, amount = 50\<rparr>,
         \<lparr>date = str ''2026-01-07'', store = str ''A'', item = str ''pie'', quantity = 2, amount = 250\<rparr>]
   = mset [\<lparr>date = str ''2026-01-07'', store = str ''A'', item = str ''pie'', quantity = 2, amount = 250\<rparr>,
         \<lparr>date = str ''2026-01-06'', store = str ''B'', item = str ''tea'', quantity = 1, amount = 50\<rparr>,
         \<lparr>date = str ''2026-01-05'', store = str ''A'', item = str ''tea'', quantity = 1, amount = 100\<rparr>]
   \<and> by_store (aggregate [\<lparr>date = str ''2026-01-05'', store = str ''A'', item = str ''tea'', quantity = 1, amount = 100\<rparr>,
         \<lparr>date = str ''2026-01-06'', store = str ''B'', item = str ''tea'', quantity = 1, amount = 50\<rparr>,
         \<lparr>date = str ''2026-01-07'', store = str ''A'', item = str ''pie'', quantity = 2, amount = 250\<rparr>])
       = [(str ''A'', 350), (str ''B'', 50)]
   \<and> map_of (by_store (aggregate [\<lparr>date = str ''2026-01-07'', store = str ''A'', item = str ''pie'', quantity = 2, amount = 250\<rparr>,
         \<lparr>date = str ''2026-01-06'', store = str ''B'', item = str ''tea'', quantity = 1, amount = 50\<rparr>,
         \<lparr>date = str ''2026-01-05'', store = str ''A'', item = str ''tea'', quantity = 1, amount = 100\<rparr>]))
       = map_of [(str ''A'', 350), (str ''B'', 50)]"
proof -
  let ?r1 = "\<lparr>date = str ''2026-01-05'', store = str ''A'', item = str ''tea'', quantity = 1, amount = 100\<rparr>"
  let ?r2 = "\<lparr>date = str ''2026-01-06'', store = str ''B'', item = str ''tea'', quantity = 1, amount = 50\<rparr>"
  let ?r3 = "\<lparr>date = str ''2026-01-07'', store = str ''A'', item = str ''pie'', quantity = 2, amount = 250\<rparr>"
  have p: "mset [?r1, ?r2, ?r3] = mset [?r3, ?r2, ?r1]" by (simp add: add.commute)
  have v: "by_store (aggregate [?r1, ?r2, ?r3]) = [(str ''A'', 350), (str ''B'', 50)]"
    by (simp add: aggregate_def str_def)
  from aggregate_order_independent [OF p] v p show ?thesis by simp
qed

section \<open>The normalizer: exceptions and results\<close>

lemma py_int_Inl: "py_int s = Inl e \<Longrightarrow> e = ValueError"
  by (auto simp: py_int_def Let_def split: prod.splits option.splits if_splits)

lemma to_int_eq:
  "to_int v =
     Inr (if strip v = [] then None
          else (case py_int (remove_all 44 (strip v)) of Inr n \<Rightarrow> Some n | Inl e \<Rightarrow> None))"
  by (auto simp: to_int_def Let_def split: sum.splits dest: py_int_Inl)

lemma strptime_Inl: "strptime v p = Inl e \<Longrightarrow> e = ValueError"
  by (auto simp: strptime_def split: option.splits prod.splits if_splits)

lemma strptime_Inr:
  assumes "strptime v p = Inr dt"
  shows "1 \<le> year dt \<and> year dt \<le> 9999 \<and> 1 \<le> month dt \<and> month dt \<le> 12
         \<and> 1 \<le> day dt \<and> day dt \<le> days_in_month (year dt) (month dt)"
  using assms by (auto simp: strptime_def split: option.splits prod.splits if_splits)

lemma try_patterns_Inr: "\<exists>r. try_patterns v ps = Inr r"
  by (induction ps) (auto split: sum.splits dest: strptime_Inl)

lemma try_patterns_None:
  "try_patterns v ps = Inr None \<longleftrightarrow> (\<forall>p \<in> set ps. strptime v p = Inl ValueError)"
  by (induction ps) (auto split: sum.splits dest: strptime_Inl)

lemma try_patterns_Some:
  "try_patterns v ps = Inr (Some d) \<Longrightarrow> \<exists>p \<in> set ps. \<exists>dt. strptime v p = Inr dt \<and> d = strftime dt"
  by (induction ps) (auto split: sum.splits if_splits)

lemma parse_date_Inr: "\<exists>r. parse_date v = Inr r"
  using try_patterns_Inr [of "strip v" patterns] by (auto simp: parse_date_def Let_def)

lemma parse_date_None:
  "parse_date v = Inr None \<longleftrightarrow>
     strip v = [] \<or> (strptime (strip v) 45 = Inl ValueError \<and> strptime (strip v) 47 = Inl ValueError
                      \<and> strptime (strip v) 46 = Inl ValueError)"
  using try_patterns_None [of "strip v" patterns]
  by (simp add: parse_date_def Let_def patterns_def)

lemma parse_date_Some:
  assumes "parse_date v = Inr (Some d)"
  shows "\<exists>dt. d = strftime dt \<and> 1 \<le> year dt \<and> year dt \<le> 9999 \<and> 1 \<le> month dt \<and> month dt \<le> 12
         \<and> 1 \<le> day dt \<and> day dt \<le> days_in_month (year dt) (month dt)"
proof -
  from assms have "try_patterns (strip v) patterns = Inr (Some d)"
    by (simp add: parse_date_def Let_def split: if_splits)
  then obtain p dt where "strptime (strip v) p = Inr dt" and "d = strftime dt"
    by (blast dest: try_patterns_Some)
  with strptime_Inr show ?thesis by blast
qed

lemma mod10_le9: "(n::nat) mod 10 \<le> 9"
  by presburger

lemma normalize_row_eq:
  assumes "parse_date (get_or (unify raw Map.empty) (str ''date'') []) = Inr d"
      and "to_int (get_or (unify raw Map.empty) (str ''quantity'') []) = Inr qty"
      and "to_int (get_or (unify raw Map.empty) (str ''amount'') []) = Inr amt"
      and "to_int (get_or (unify raw Map.empty) (str ''price'') []) = Inr price"
  shows "normalize_row raw st =
     Inr (case d of
        None \<Rightarrow> (None, Some msg_date)
      | Some d' \<Rightarrow>
          if strip (get_or (unify raw Map.empty) (str ''item'') []) = [] then (None, Some msg_item)
          else (case qty of
                  None \<Rightarrow> (None, Some msg_quantity)
                | Some q \<Rightarrow>
                    (case amt of
                       Some a \<Rightarrow>
                         (Some \<lparr>date = d', store = st,
                                item = strip (get_or (unify raw Map.empty) (str ''item'') []),
                                quantity = q, amount = a\<rparr>, None)
                     | None \<Rightarrow>
                         (case price of
                            None \<Rightarrow> (None, Some msg_amount)
                          | Some p \<Rightarrow>
                              (Some \<lparr>date = d', store = st,
                                     item = strip (get_or (unify raw Map.empty) (str ''item'') []),
                                     quantity = q, amount = p * q\<rparr>, None)))))"
  using assms by (simp add: normalize_row_def Let_def split: option.splits)

text \<open>
  C6. Totality: for every raw row and every store label, \<open>normalize_row\<close> returns (no
  exception leaves it), and exactly one component of the returned pair is not \<open>None\<close>.
\<close>

theorem normalize_row_total:
  "\<exists>r e. normalize_row raw st = Inr (r, e) \<and> ((r \<noteq> None \<and> e = None) \<or> (r = None \<and> e \<noteq> None))"
proof -
  obtain d where d: "parse_date (get_or (unify raw Map.empty) (str ''date'') []) = Inr d"
    using parse_date_Inr by blast
  show ?thesis
    by (simp add: normalize_row_eq [OF d to_int_eq to_int_eq to_int_eq] split: option.splits sum.splits)
qed

theorem normalize_row_total_witness:
  "\<exists>r e. normalize_row [(str ''date'', []), (str ''product'', str ''X''),
                          (str ''quantity'', str ''1''), (str ''amount'', str ''100'')] (str ''store_a'')
          = Inr (r, e) \<and> ((r \<noteq> None \<and> e = None) \<or> (r = None \<and> e \<noteq> None))"
  by (rule normalize_row_total)

lemmas library_eval =
  parse_date_def to_int_def get_or_def strip_def isspace_def str_def
  COLUMN_MAP_def py_int_def max_str_digits_def int_space_def decimal_def remove_all_def
  patterns_def strptime_def
  match_Y_def match_m_def match_d_def match_sep_def days_in_month_def is_leap_def strftime_def
  pad2_def dec.simps

lemma dec_four_digits:
  assumes "1000 \<le> y" and "y \<le> 9999"
  shows "dec y = [48 + y div 1000, 48 + y div 100 mod 10, 48 + y div 10 mod 10, 48 + y mod 10]"
proof -
  have n: "\<not> y < 10" "\<not> y div 10 < 10" "\<not> y div 100 < 10" "y div 1000 < 10"
    using assms by simp_all
  have e: "y div 10 div 10 = y div 100" "y div 100 div 10 = y div 1000"
    by (simp_all add: div_mult2_eq [symmetric])
  have a: "dec y = dec (y div 10) @ [48 + y mod 10]"
    using dec.simps [of y] n by simp
  have b: "dec (y div 10) = dec (y div 100) @ [48 + y div 10 mod 10]"
    using dec.simps [of "y div 10"] n by (simp only: e if_False)
  have c: "dec (y div 100) = dec (y div 1000) @ [48 + y div 100 mod 10]"
    using dec.simps [of "y div 100"] n by (simp only: e if_False)
  have d: "dec (y div 1000) = [48 + y div 1000]"
    using dec.simps [of "y div 1000"] n by (simp only: if_True)
  show ?thesis by (simp add: a b c d)
qed

lemma is_iso_date_strftime:
  assumes "1000 \<le> year dt" and "year dt \<le> 9999"
  shows "is_iso_date (strftime dt)"
proof -
  have "year dt div 1000 \<le> 9" using assms by simp
  then show ?thesis
    by (simp add: is_iso_date_def strftime_def dec_four_digits [OF assms] pad2_def is_digit_def
        mod10_le9)
qed

lemma parse_date_Some_pattern:
  assumes "parse_date v = Inr (Some d)"
  shows "\<exists>p dt. p \<in> set patterns \<and> strptime (strip v) p = Inr dt \<and> d = strftime dt"
proof -
  from assms have "try_patterns (strip v) patterns = Inr (Some d)"
    by (simp add: parse_date_def Let_def split: if_splits)
  then show ?thesis by (blast dest: try_patterns_Some)
qed

text \<open>
  C3, as stated, fails twice. A quantity with a minus sign is parsed by \<open>int\<close> and
  accepted, so a returned record can have a negative quantity. And a date with a year
  below 1000 is accepted and rendered without the leading zero, so a returned record can
  have a date that is not of the form \<open>YYYY-MM-DD\<close>.
\<close>

theorem normalize_row_invalid_records:
  "normalize_row [(str ''date'', str ''2026-01-01''), (str ''product'', str ''Y''),
                  (str ''quantity'', str ''-5''), (str ''amount'', str ''100'')] (str ''store_a'')
     = Inr (Some \<lparr>date = str ''2026-01-01'', store = str ''store_a'', item = str ''Y'',
                   quantity = - 5, amount = 100\<rparr>, None)
   \<and> normalize_row [(str ''date'', str ''0999-12-31''), (str ''product'', str ''Y''),
                  (str ''quantity'', str ''1''), (str ''amount'', str ''100'')] (str ''store_a'')
     = Inr (Some \<lparr>date = str ''999-12-31'', store = str ''store_a'', item = str ''Y'',
                   quantity = 1, amount = 100\<rparr>, None)
   \<and> \<not> is_iso_date (str ''999-12-31'')"
proof -
  have a: "normalize_row [(str ''date'', str ''2026-01-01''), (str ''product'', str ''Y''),
                  (str ''quantity'', str ''-5''), (str ''amount'', str ''100'')] (str ''store_a'')
     = Inr (Some \<lparr>date = str ''2026-01-01'', store = str ''store_a'', item = str ''Y'',
                   quantity = - 5, amount = 100\<rparr>, None)"
    by (simp add: normalize_row_def library_eval)
  have b: "normalize_row [(str ''date'', str ''0999-12-31''), (str ''product'', str ''Y''),
                  (str ''quantity'', str ''1''), (str ''amount'', str ''100'')] (str ''store_a'')
     = Inr (Some \<lparr>date = str ''999-12-31'', store = str ''store_a'', item = str ''Y'',
                   quantity = 1, amount = 100\<rparr>, None)"
    by (simp add: normalize_row_def library_eval)
  have c: "\<not> is_iso_date (str ''999-12-31'')"
    by (simp add: is_iso_date_def str_def)
  from a b c show ?thesis by blast
qed

text \<open>
  C3, amended. A record is returned by \<open>normalize_row\<close> only if all validation rules
  passed: its date is the rendering of the calendar date that one of the three formats
  parsed the date field to, of the textual form \<open>YYYY-MM-DD\<close> when the year is 1000 or
  later; its item is the trimmed item field and not empty; its store is the caller's
  label; its quantity is the integer the quantity field parsed to, of either sign; its
  amount is the integer the amount field parsed to, or price times quantity when the
  amount did not parse and the price did. It comes with no rejection reason.
\<close>

theorem normalize_row_record_valid:
  fixes raw :: "(ustr \<times> ustr) list" and st :: ustr
  defines "field \<equiv> \<lambda>f. get_or (unify raw Map.empty) f []"
  assumes "normalize_row raw st = Inr (Some r, e)"
  shows "parse_date (field (str ''date'')) = Inr (Some (date r))
       \<and> (\<exists>p dt. p \<in> set patterns \<and> strptime (strip (field (str ''date''))) p = Inr dt
              \<and> date r = strftime dt
              \<and> 1 \<le> year dt \<and> year dt \<le> 9999 \<and> 1 \<le> month dt \<and> month dt \<le> 12
              \<and> 1 \<le> day dt \<and> day dt \<le> days_in_month (year dt) (month dt)
              \<and> (1000 \<le> year dt \<longrightarrow> is_iso_date (date r)))
       \<and> item r = strip (field (str ''item'')) \<and> item r \<noteq> []
       \<and> store r = st
       \<and> to_int (field (str ''quantity'')) = Inr (Some (quantity r))
       \<and> (to_int (field (str ''amount'')) = Inr (Some (amount r))
            \<or> (to_int (field (str ''amount'')) = Inr None
                \<and> (\<exists>p. to_int (field (str ''price'')) = Inr (Some p) \<and> amount r = p * quantity r)))
       \<and> e = None"
proof -
  obtain d where d: "parse_date (field (str ''date'')) = Inr d"
    using parse_date_Inr by blast
  obtain q where q: "to_int (field (str ''quantity'')) = Inr q" by (simp add: to_int_eq)
  obtain a where a: "to_int (field (str ''amount'')) = Inr a" by (simp add: to_int_eq)
  obtain p where p: "to_int (field (str ''price'')) = Inr p" by (simp add: to_int_eq)
  note eq = normalize_row_eq [OF d [unfolded field_def] q [unfolded field_def]
      a [unfolded field_def] p [unfolded field_def], of st]
  have main: "d = Some (date r) \<and> item r = strip (field (str ''item'')) \<and> item r \<noteq> []
       \<and> store r = st \<and> q = Some (quantity r)
       \<and> (a = Some (amount r) \<or> (a = None \<and> (\<exists>p'. p = Some p' \<and> amount r = p' * quantity r)))
       \<and> e = None"
    using assms(2) unfolding eq
    by (cases d; cases q; cases a; cases p; auto simp: field_def split: if_splits)
  with d have pd: "parse_date (field (str ''date'')) = Inr (Some (date r))" by simp
  then obtain pt dt where pt: "pt \<in> set patterns"
      and sp: "strptime (strip (field (str ''date''))) pt = Inr dt" and dr: "date r = strftime dt"
    using parse_date_Some_pattern by blast
  note v = strptime_Inr [OF sp]
  have iso: "1000 \<le> year dt \<longrightarrow> is_iso_date (date r)"
    using v by (simp add: dr is_iso_date_strftime)
  have dpart: "\<exists>p dt. p \<in> set patterns \<and> strptime (strip (field (str ''date''))) p = Inr dt
              \<and> date r = strftime dt
              \<and> 1 \<le> year dt \<and> year dt \<le> 9999 \<and> 1 \<le> month dt \<and> month dt \<le> 12
              \<and> 1 \<le> day dt \<and> day dt \<le> days_in_month (year dt) (month dt)
              \<and> (1000 \<le> year dt \<longrightarrow> is_iso_date (date r))"
    using pt sp dr v iso by blast
  have qq: "to_int (field (str ''quantity'')) = Inr (Some (quantity r))"
    using main q by simp
  have aa: "to_int (field (str ''amount'')) = Inr (Some (amount r))
            \<or> (to_int (field (str ''amount'')) = Inr None
                \<and> (\<exists>p. to_int (field (str ''price'')) = Inr (Some p) \<and> amount r = p * quantity r))"
    using main a p by auto
  from main pd dpart qq aa show ?thesis by blast
qed

theorem normalize_row_record_valid_witness:
  "normalize_row [([0x65E5, 0x4ED8], str ''2026/01/05''), ([0x5546, 0x54C1, 0x540D], str ''Coffee''),
                  ([0x6570, 0x91CF], str ''3''), ([0x91D1, 0x984D], str ''1,500'')] (str ''store_a'')
     = Inr (Some \<lparr>date = str ''2026-01-05'', store = str ''store_a'', item = str ''Coffee'',
                   quantity = 3, amount = 1500\<rparr>, None)
   \<and> parse_date (str ''2026/01/05'') = Inr (Some (str ''2026-01-05''))
   \<and> strptime (str ''2026/01/05'') 47 = Inr \<lparr>year = 2026, month = 1, day = 5\<rparr>
   \<and> is_iso_date (str ''2026-01-05'')
   \<and> to_int (str ''3'') = Inr (Some 3)
   \<and> to_int (str ''1,500'') = Inr (Some 1500)"
proof -
  let ?raw = "[([0x65E5, 0x4ED8], str ''2026/01/05''), ([0x5546, 0x54C1, 0x540D], str ''Coffee''),
               ([0x6570, 0x91CF], str ''3''), ([0x91D1, 0x984D], str ''1,500'')]"
  let ?r = "\<lparr>date = str ''2026-01-05'', store = str ''store_a'', item = str ''Coffee'',
             quantity = 3, amount = 1500\<rparr>"
  have h: "normalize_row ?raw (str ''store_a'') = Inr (Some ?r, None)"
    by (simp add: normalize_row_def library_eval)
  have f: "get_or (unify ?raw Map.empty) (str ''date'') [] = str ''2026/01/05''"
     "get_or (unify ?raw Map.empty) (str ''quantity'') [] = str ''3''"
     "get_or (unify ?raw Map.empty) (str ''amount'') [] = str ''1,500''"
    by (simp_all add: library_eval)
  have sv: "strip (str ''2026/01/05'') = str ''2026/01/05''"
    by (simp add: strip_def isspace_def str_def)
  have e45: "strptime (str ''2026/01/05'') 45 = Inl ValueError"
    by (simp add: library_eval)
  have e47: "strptime (str ''2026/01/05'') 47 = Inr \<lparr>year = 2026, month = 1, day = 5\<rparr>"
    by (simp add: library_eval)
  have e46: "strptime (str ''2026/01/05'') 46 = Inl ValueError"
    by (simp add: library_eval)
  note t = normalize_row_record_valid [OF h, unfolded f sv]
  from t obtain p dt where p: "p \<in> set patterns"
      and sp: "strptime (str ''2026/01/05'') p = Inr dt"
      and iso: "1000 \<le> year dt \<longrightarrow> is_iso_date (date ?r)"
    by blast
  from p have "p = 45 \<or> p = 47 \<or> p = 46" by (simp add: patterns_def)
  with sp e45 e47 e46 have "dt = \<lparr>year = 2026, month = 1, day = 5\<rparr>" by auto
  with iso have i: "is_iso_date (str ''2026-01-05'')" by simp
  from t have pd: "parse_date (str ''2026/01/05'') = Inr (Some (str ''2026-01-05''))"
    and tq: "to_int (str ''3'') = Inr (Some 3)" by simp_all
  have ta: "to_int (str ''1,500'') = Inr (Some 1500)" by (simp add: library_eval)
  from h pd e47 i tq ta show ?thesis by blast
qed

text \<open>
  C4. Rejection: with the reconciled and trimmed fields of a row, \<open>normalize_row\<close> rejects
  the row exactly when the date is empty or fails all three formats, or the item is
  empty, or the quantity is empty or no integer, or amount and price are both empty or
  no integer. The checks are made in this order, and the reason returned is the message
  of the first check that fails; in every other case a record is returned.
\<close>

theorem normalize_row_rejection:
  fixes raw :: "(ustr \<times> ustr) list" and st :: ustr
  defines "field \<equiv> \<lambda>f. get_or (unify raw Map.empty) f []"
  defines "date_bad \<equiv> strip (field (str ''date'')) = []
             \<or> (strptime (strip (field (str ''date''))) 45 = Inl ValueError
                \<and> strptime (strip (field (str ''date''))) 47 = Inl ValueError
                \<and> strptime (strip (field (str ''date''))) 46 = Inl ValueError)"
  defines "item_bad \<equiv> strip (field (str ''item'')) = []"
  defines "int_bad \<equiv> \<lambda>f. strip (field f) = [] \<or> py_int (remove_all 44 (strip (field f))) = Inl ValueError"
  shows "((\<exists>reason. normalize_row raw st = Inr (None, Some reason)) \<longleftrightarrow>
            date_bad \<or> item_bad \<or> int_bad (str ''quantity'')
            \<or> (int_bad (str ''amount'') \<and> int_bad (str ''price'')))
       \<and> (date_bad \<longrightarrow> normalize_row raw st = Inr (None, Some msg_date))
       \<and> (\<not> date_bad \<and> item_bad \<longrightarrow> normalize_row raw st = Inr (None, Some msg_item))
       \<and> (\<not> date_bad \<and> \<not> item_bad \<and> int_bad (str ''quantity'') \<longrightarrow>
            normalize_row raw st = Inr (None, Some msg_quantity))
       \<and> (\<not> date_bad \<and> \<not> item_bad \<and> \<not> int_bad (str ''quantity'')
            \<and> int_bad (str ''amount'') \<and> int_bad (str ''price'') \<longrightarrow>
            normalize_row raw st = Inr (None, Some msg_amount))
       \<and> (\<not> date_bad \<and> \<not> item_bad \<and> \<not> int_bad (str ''quantity'')
            \<and> \<not> (int_bad (str ''amount'') \<and> int_bad (str ''price'')) \<longrightarrow>
            (\<exists>r. normalize_row raw st = Inr (Some r, None)))"
proof -
  obtain d where d: "parse_date (field (str ''date'')) = Inr d"
    using parse_date_Inr by blast
  obtain q where q: "to_int (field (str ''quantity'')) = Inr q" by (simp add: to_int_eq)
  obtain a where a: "to_int (field (str ''amount'')) = Inr a" by (simp add: to_int_eq)
  obtain p where p: "to_int (field (str ''price'')) = Inr p" by (simp add: to_int_eq)
  have db: "date_bad \<longleftrightarrow> d = None"
    using d parse_date_None [of "field (str ''date'')"] by (auto simp: date_bad_def)
  have ib: "int_bad f \<longleftrightarrow> to_int (field f) = Inr None" for f
    unfolding int_bad_def to_int_eq by (auto split: sum.splits dest: py_int_Inl)
  have qb: "int_bad (str ''quantity'') \<longleftrightarrow> q = None" by (simp add: ib q)
  have ab: "int_bad (str ''amount'') \<longleftrightarrow> a = None" by (simp add: ib a)
  have pb: "int_bad (str ''price'') \<longleftrightarrow> p = None" by (simp add: ib p)
  note eq = normalize_row_eq [OF d [unfolded field_def] q [unfolded field_def]
      a [unfolded field_def] p [unfolded field_def], of st, folded field_def]
  show ?thesis
    unfolding db qb ab pb item_bad_def eq
    by (cases d; cases q; cases a; cases p; simp add: field_def)
qed

theorem normalize_row_rejection_witness:
  "normalize_row [(str ''date'', []), (str ''product'', str ''X''),
                  (str ''quantity'', str ''1''), (str ''amount'', str ''100'')] (str ''store_a'')
     = Inr (None, Some msg_date)
   \<and> normalize_row [(str ''date'', str ''2026-01-32''), (str ''product'', str ''  ''),
                  (str ''quantity'', str ''x''), (str ''amount'', str ''100'')] (str ''store_a'')
     = Inr (None, Some msg_date)
   \<and> normalize_row [(str ''date'', str ''2026-01-01''), (str ''product'', str ''  ''),
                  (str ''quantity'', str ''x''), (str ''amount'', str ''100'')] (str ''store_a'')
     = Inr (None, Some msg_item)
   \<and> normalize_row [(str ''date'', str ''2026-01-01''), (str ''product'', str ''X''),
                  (str ''quantity'', str ''x''), (str ''amount'', str ''n/a'')] (str ''store_a'')
     = Inr (None, Some msg_quantity)
   \<and> normalize_row [(str ''date'', str ''2026-01-01''), (str ''product'', str ''X''),
                  (str ''quantity'', str ''1''), (str ''amount'', str ''n/a'')] (str ''store_a'')
     = Inr (None, Some msg_amount)
   \<and> (\<exists>r. normalize_row [(str ''date'', str ''2026-01-01''), (str ''product'', str ''Y''),
                  (str ''quantity'', str ''2''), (str ''price'', str ''50'')] (str ''store_a'')
     = Inr (Some r, None))"
proof -
  note c2 = normalize_row_rejection [THEN conjunct2]
  note c3 = c2 [THEN conjunct2]
  note c4 = c3 [THEN conjunct2]
  note c5 = c4 [THEN conjunct2]
  note c6 = c5 [THEN conjunct2]
  have w1: "normalize_row [(str ''date'', []), (str ''product'', str ''X''),
                  (str ''quantity'', str ''1''), (str ''amount'', str ''100'')] (str ''store_a'')
     = Inr (None, Some msg_date)"
    by (rule c2 [THEN conjunct1, THEN mp]) (simp add: library_eval)
  have w2: "normalize_row [(str ''date'', str ''2026-01-32''), (str ''product'', str ''  ''),
                  (str ''quantity'', str ''x''), (str ''amount'', str ''100'')] (str ''store_a'')
     = Inr (None, Some msg_date)"
    by (rule c2 [THEN conjunct1, THEN mp]) (simp add: library_eval)
  have w3: "normalize_row [(str ''date'', str ''2026-01-01''), (str ''product'', str ''  ''),
                  (str ''quantity'', str ''x''), (str ''amount'', str ''100'')] (str ''store_a'')
     = Inr (None, Some msg_item)"
    by (rule c3 [THEN conjunct1, THEN mp]) (simp add: library_eval)
  have w4: "normalize_row [(str ''date'', str ''2026-01-01''), (str ''product'', str ''X''),
                  (str ''quantity'', str ''x''), (str ''amount'', str ''n/a'')] (str ''store_a'')
     = Inr (None, Some msg_quantity)"
    by (rule c4 [THEN conjunct1, THEN mp]) (simp add: library_eval)
  have w5: "normalize_row [(str ''date'', str ''2026-01-01''), (str ''product'', str ''X''),
                  (str ''quantity'', str ''1''), (str ''amount'', str ''n/a'')] (str ''store_a'')
     = Inr (None, Some msg_amount)"
    by (rule c5 [THEN conjunct1, THEN mp]) (simp add: library_eval)
  have w6: "\<exists>r. normalize_row [(str ''date'', str ''2026-01-01''), (str ''product'', str ''Y''),
                  (str ''quantity'', str ''2''), (str ''price'', str ''50'')] (str ''store_a'')
     = Inr (Some r, None)"
    by (rule c6 [THEN mp]) (simp add: library_eval)
  from w1 w2 w3 w4 w5 w6 show ?thesis by blast
qed

text \<open>
  C5. Amount derivation: in an accepted record the quantity is the parsed quantity field;
  the amount is the parsed amount field when that field parses as an integer, and
  otherwise, the price field then being an integer, the exact product of price and
  quantity. When neither the amount nor the price parses, the row is rejected.
\<close>

theorem normalize_row_amount:
  fixes raw :: "(ustr \<times> ustr) list" and st :: ustr
  defines "field \<equiv> \<lambda>f. get_or (unify raw Map.empty) f []"
  shows "(normalize_row raw st = Inr (Some r, e) \<longrightarrow>
            to_int (field (str ''quantity'')) = Inr (Some (quantity r))
            \<and> (\<forall>a. to_int (field (str ''amount'')) = Inr (Some a) \<longrightarrow> amount r = a)
            \<and> (to_int (field (str ''amount'')) = Inr None \<longrightarrow>
                 (\<exists>p. to_int (field (str ''price'')) = Inr (Some p) \<and> amount r = p * quantity r)))
       \<and> (to_int (field (str ''amount'')) = Inr None \<and> to_int (field (str ''price'')) = Inr None \<longrightarrow>
            (\<exists>reason. normalize_row raw st = Inr (None, Some reason)))"
proof -
  obtain d where d: "parse_date (field (str ''date'')) = Inr d"
    using parse_date_Inr by blast
  obtain q where q: "to_int (field (str ''quantity'')) = Inr q" by (simp add: to_int_eq)
  obtain a where a: "to_int (field (str ''amount'')) = Inr a" by (simp add: to_int_eq)
  obtain p where p: "to_int (field (str ''price'')) = Inr p" by (simp add: to_int_eq)
  note eq = normalize_row_eq [OF d [unfolded field_def] q [unfolded field_def]
      a [unfolded field_def] p [unfolded field_def], of st]
  show ?thesis
    unfolding q a p eq
    by (cases d; cases q; cases a; cases p; auto)
qed

theorem normalize_row_amount_witness:
  "normalize_row [(str ''date'', str ''2026-01-01''), (str ''product'', str ''Y''),
                  (str ''quantity'', str ''2''), (str ''price'', str ''50'')] (str ''store_a'')
     = Inr (Some \<lparr>date = str ''2026-01-01'', store = str ''store_a'', item = str ''Y'',
                   quantity = 2, amount = 100\<rparr>, None)
   \<and> to_int (str ''2'') = Inr (Some 2) \<and> to_int [] = Inr None
   \<and> (\<exists>p. to_int (str ''50'') = Inr (Some p) \<and> (100::int) = p * 2)"
proof -
  let ?raw = "[(str ''date'', str ''2026-01-01''), (str ''product'', str ''Y''),
               (str ''quantity'', str ''2''), (str ''price'', str ''50'')]"
  have h: "normalize_row ?raw (str ''store_a'')
     = Inr (Some \<lparr>date = str ''2026-01-01'', store = str ''store_a'', item = str ''Y'',
                   quantity = 2, amount = 100\<rparr>, None)"
    by (simp add: normalize_row_def library_eval)
  have f: "get_or (unify ?raw Map.empty) (str ''quantity'') [] = str ''2''"
     "get_or (unify ?raw Map.empty) (str ''amount'') [] = []"
     "get_or (unify ?raw Map.empty) (str ''price'') [] = str ''50''"
    by (simp_all add: library_eval)
  have n: "to_int [] = Inr None" by (simp add: library_eval)
  from normalize_row_amount [THEN conjunct1, THEN mp, OF h] h n show ?thesis
    unfolding f by simp
qed

section \<open>Column reconciliation\<close>

lemma COLUMN_MAP_nonempty: "map_of COLUMN_MAP k = Some f \<Longrightarrow> f \<noteq> []"
  by (auto simp: COLUMN_MAP_def str_def split: if_splits)

lemma unify_append: "unify (xs @ ys) u = unify ys (unify xs u)"
  by (induction xs arbitrary: u) (auto split: option.splits)

lemma unify_untouched:
  "\<forall>(k, v) \<in> set raw. map_of COLUMN_MAP (strip k) \<noteq> Some f \<Longrightarrow> unify raw u f = u f"
  by (induction raw arbitrary: u) (auto split: option.splits)

text \<open>
  C7. Last one wins: when a column of the raw row maps to a canonical field and no
  later column of the row maps to the same field, the unified map holds that column's
  trimmed value for the field, whatever the earlier columns are.
\<close>

theorem unify_last_wins:
  assumes "map_of COLUMN_MAP (strip k) = Some f"
      and "\<forall>(k', v') \<in> set later. map_of COLUMN_MAP (strip k') \<noteq> Some f"
  shows "unify (earlier @ (k, v) # later) Map.empty f = Some (strip v)"
proof -
  from assms(1) have "f \<noteq> []" by (rule COLUMN_MAP_nonempty)
  with assms(1) have step: "unify ((k, v) # later) u = unify later (u(f \<mapsto> strip v))" for u
    by simp
  have "unify (earlier @ (k, v) # later) Map.empty f
        = unify later ((unify earlier Map.empty)(f \<mapsto> strip v)) f"
    by (simp only: unify_append step)
  also have "\<dots> = ((unify earlier Map.empty)(f \<mapsto> strip v)) f"
    by (rule unify_untouched [OF assms(2)])
  finally show ?thesis by simp
qed

theorem unify_last_wins_witness:
  "unify ([(str ''date'', str ''2026-01-01''), (str ''product'', str ''tea'')]
          @ (str '' day'', str '' 2026-02-02 '') # [(str ''quantity'', str ''3'')]) Map.empty (str ''date'')
   = Some (str ''2026-02-02'')"
proof -
  have a: "map_of COLUMN_MAP (strip (str '' day'')) = Some (str ''date'')"
    by (simp add: COLUMN_MAP_def strip_def isspace_def str_def)
  have b: "\<forall>(k', v') \<in> set [(str ''quantity'', str ''3'')]. map_of COLUMN_MAP (strip k') \<noteq> Some (str ''date'')"
    by (simp add: COLUMN_MAP_def strip_def isspace_def str_def)
  have c: "strip (str '' 2026-02-02 '') = str ''2026-02-02''"
    by (simp add: strip_def isspace_def str_def)
  from unify_last_wins [OF a b, of "[(str ''date'', str ''2026-01-01''), (str ''product'', str ''tea'')]" "str '' 2026-02-02 ''"]
  show ?thesis unfolding c .
qed

section \<open>Commas in numbers\<close>

lemma int_digits_ascii:
  "\<forall>c \<in> set ds. 48 \<le> c \<and> c \<le> 57 \<Longrightarrow>
   int_digits acc prev ds = (if ds = [] \<and> \<not> prev then None
                             else Some (foldl (\<lambda>a c. 10 * a + (c - 48)) acc ds))"
  by (induction ds arbitrary: acc prev) (auto simp: decimal_def)

lemma py_int_ascii_digits:
  assumes "\<forall>c \<in> set ds. 48 \<le> c \<and> c \<le> 57" and "ds \<noteq> []"
      and "length ds \<le> max_str_digits"
  shows "py_int ds = Inr (int (foldl (\<lambda>a c. 10 * a + (c - 48)) 0 ds))"
proof -
  from assms obtain c cs where ds: "ds = c # cs" by (cases ds) auto
  with assms have c: "48 \<le> c" "c \<le> 57" by auto
  have "last ds \<in> set ds" using assms(2) by simp
  with assms(1) have "48 \<le> last ds \<and> last ds \<le> 57" by blast
  then have l: "\<not> int_space (last ds)"
    by (auto simp: int_space_def isspace_def)
  have "dropWhile int_space ds = ds"
    using c by (simp add: ds int_space_def isspace_def)
  moreover have "dropWhile int_space (rev ds) = rev ds"
    using l assms(2) by (cases ds rule: rev_cases) auto
  ultimately have t: "rev (dropWhile int_space (rev (dropWhile int_space ds))) = ds" by simp
  have body: "(case ds of [] \<Rightarrow> (False, [])
                | c # cs \<Rightarrow> if c = 45 then (True, cs) else if c = 43 then (False, cs) else (False, ds))
              = (False, ds)"
    using c by (simp add: ds)
  have dg: "int_digits 0 False ds = Some (foldl (\<lambda>a c. 10 * a + (c - 48)) 0 ds)"
    using int_digits_ascii [OF assms(1)] assms(2) by simp
  have "remove_all 95 ds = ds"
    using assms(1) by (auto simp: remove_all_def filter_id_conv)
  then have lim: "\<not> max_str_digits < length (remove_all 95 ds)"
    using assms(3) by simp
  show ?thesis
    unfolding py_int_def t Let_def body by (simp add: dg lim)
qed

lemma strip_id:
  assumes "s \<noteq> []" and "\<not> isspace (hd s)" and "\<not> isspace (last s)"
  shows "strip s = s"
proof -
  from assms have "dropWhile isspace s = s" by (cases s) auto
  moreover from assms have "dropWhile isspace (rev s) = rev s"
    by (cases s rule: rev_cases) auto
  ultimately show ?thesis by (simp add: strip_def)
qed

lemma py_int_Nil: "py_int [] = Inl ValueError"
  by (simp add: py_int_def)

text \<open>
  C10. Commas anywhere: \<open>_to_int\<close> deletes every comma of the trimmed value before it
  parses, so a value that is an integer once its commas are deleted is accepted with that
  integer. In particular any string of ASCII digits and commas with at least one digit,
  and no more digits than \<open>int\<close> converts, is accepted, wherever the commas stand, and
  its value is that of its digits.
\<close>

theorem to_int_commas:
  "(py_int (remove_all 44 (strip v)) = Inr n \<longrightarrow> to_int v = Inr (Some n))
   \<and> ((\<forall>c \<in> set s. c = 44 \<or> (48 \<le> c \<and> c \<le> 57)) \<and> (\<exists>c \<in> set s. c \<noteq> 44)
       \<and> length (remove_all 44 s) \<le> max_str_digits \<longrightarrow>
        to_int s = Inr (Some (int (foldl (\<lambda>a c. 10 * a + (c - 48)) 0 (remove_all 44 s)))))"
proof (intro conjI impI)
  assume p: "py_int (remove_all 44 (strip v)) = Inr n"
  then have "strip v \<noteq> []" by (auto simp: remove_all_def py_int_Nil)
  with p show "to_int v = Inr (Some n)" by (simp add: to_int_eq)
next
  assume a: "(\<forall>c \<in> set s. c = 44 \<or> (48 \<le> c \<and> c \<le> 57)) \<and> (\<exists>c \<in> set s. c \<noteq> 44)
       \<and> length (remove_all 44 s) \<le> max_str_digits"
  then have dl: "length (remove_all 44 s) \<le> max_str_digits" by simp
  from a have ne: "s \<noteq> []" by auto
  have ns: "\<not> isspace c" if "c \<in> set s" for c
    using a that by (auto simp: isspace_def)
  from ne have "hd s \<in> set s" "last s \<in> set s" by simp_all
  then have st: "strip s = s" using ne ns by (intro strip_id) auto
  have dg: "\<forall>c \<in> set (remove_all 44 s). 48 \<le> c \<and> c \<le> 57"
    using a by (auto simp: remove_all_def)
  have dn: "remove_all 44 s \<noteq> []"
    using a by (auto simp: remove_all_def filter_empty_conv)
  show "to_int s = Inr (Some (int (foldl (\<lambda>a c. 10 * a + (c - 48)) 0 (remove_all 44 s))))"
    using ne by (simp add: to_int_eq st py_int_ascii_digits [OF dg dn dl])
qed

theorem to_int_commas_witness:
  "to_int (str ''1,2'') = Inr (Some 12) \<and> to_int (str '',100'') = Inr (Some 100)
   \<and> to_int (str ''1,,0,'') = Inr (Some 10)"
proof -
  have a: "(\<forall>c \<in> set (str ''1,2''). c = 44 \<or> (48 \<le> c \<and> c \<le> 57)) \<and> (\<exists>c \<in> set (str ''1,2''). c \<noteq> 44)
       \<and> length (remove_all 44 (str ''1,2'')) \<le> max_str_digits"
    by (simp add: str_def remove_all_def max_str_digits_def)
  have b: "(\<forall>c \<in> set (str '',100''). c = 44 \<or> (48 \<le> c \<and> c \<le> 57)) \<and> (\<exists>c \<in> set (str '',100''). c \<noteq> 44)
       \<and> length (remove_all 44 (str '',100'')) \<le> max_str_digits"
    by (simp add: str_def remove_all_def max_str_digits_def)
  have c: "(\<forall>c \<in> set (str ''1,,0,''). c = 44 \<or> (48 \<le> c \<and> c \<le> 57)) \<and> (\<exists>c \<in> set (str ''1,,0,''). c \<noteq> 44)
       \<and> length (remove_all 44 (str ''1,,0,'')) \<le> max_str_digits"
    by (simp add: str_def remove_all_def max_str_digits_def)
  from to_int_commas [THEN conjunct2, THEN mp, OF a]
       to_int_commas [THEN conjunct2, THEN mp, OF b]
       to_int_commas [THEN conjunct2, THEN mp, OF c]
  show ?thesis by (simp add: remove_all_def str_def)
qed

section \<open>Store labels\<close>

lemma split_nonempty: "split c s \<noteq> []"
  by (induction s) (auto split: list.splits)

lemma split_append: "split c (a @ c # b) = split c a @ split c b"
proof (induction a)
  case Nil
  show ?case by simp
next
  case (Cons x a)
  obtain p ps where "split c a = p # ps"
    using split_nonempty [of c a] by (cases "split c a") auto
  with Cons show ?case by simp
qed

lemma split_none: "c \<notin> set s \<Longrightarrow> split c s = [s]"
  by (induction s) auto

lemma join_split: "join [c] (split c s) = s"
proof (induction s)
  case Nil
  show ?case by simp
next
  case (Cons x s)
  obtain p ps where ps: "split c s = p # ps"
    using split_nonempty [of c s] by (cases "split c s") auto
  show ?case
  proof (cases "x = c")
    case True
    with Cons ps show ?thesis by simp
  next
    case False
    with Cons ps show ?thesis by (cases ps) auto
  qed
qed

lemma rfind_last:
  assumes "c \<notin> set b"
  shows "rfind c (a @ c # b) = int (length a)"
proof -
  have "takeWhile (\<lambda>x. x \<noteq> c) (rev b @ c # rev a) = rev b"
    using assms by (induction b rule: rev_induct) auto
  then show ?thesis by (simp add: rfind_def)
qed

lemma stem_csv:
  assumes "a \<noteq> []"
  shows "stem (a @ str ''.csv'') = a"
proof -
  have "rfind 46 (a @ 46 # str ''csv'') = int (length a)"
    by (rule rfind_last) (simp add: str_def)
  moreover have "a @ str ''.csv'' = a @ 46 # str ''csv''" by (simp add: str_def)
  moreover have "length (str ''csv'') = 3" by (simp add: str_def)
  ultimately show ?thesis using assms by (simp add: stem_def)
qed

lemma infer_store_name_suffix:
  assumes "95 \<notin> set y" and "95 \<notin> set m"
  shows "infer_store_name (x @ [95] @ y @ [95] @ m @ str ''.csv'') = x"
proof -
  have "stem ((x @ [95] @ y @ [95] @ m) @ str ''.csv'') = x @ [95] @ y @ [95] @ m"
    by (rule stem_csv) simp
  then have s: "stem (x @ [95] @ y @ [95] @ m @ str ''.csv'') = x @ [95] @ y @ [95] @ m"
    by simp
  have "split 95 (x @ 95 # (y @ 95 # m)) = split 95 x @ split 95 y @ split 95 m"
    by (simp only: split_append)
  then have p: "split 95 (x @ [95] @ y @ [95] @ m) = split 95 x @ [y, m]"
    using assms by (simp add: split_none)
  have l: "3 \<le> length (split 95 x @ [y, m])"
    using split_nonempty [of 95 x] by (cases "split 95 x") simp_all
  have t: "take (length (split 95 x @ [y, m]) - 2) (split 95 x @ [y, m]) = split 95 x"
    by simp
  show ?thesis
    unfolding infer_store_name_def s Let_def p using l by (simp only: t join_split if_True)
qed

lemma endswith_split: "endswith n suf \<Longrightarrow> \<exists>x. n = x @ suf"
  by (metis append_take_drop_id endswith_def)

lemma replace_char_digits: "\<forall>c \<in> set s. is_digit c \<Longrightarrow> replace_char 45 95 s = s"
  by (induction s) (auto simp: replace_char_def is_digit_def)

text \<open>
  C9. Store label: for a file name \<open>x_YYYY_MM.csv\<close>, year and month being digits, the
  label is \<open>x\<close>, the stem without its trailing \<open>_YYYY_MM\<close>; every file that
  \<open>list_input_csvs\<close> finds for the month \<open>YYYY-MM\<close> has such a name. When the stem has
  fewer than three parts between underscores, the label is the whole stem.
\<close>

theorem infer_store_name_label:
  assumes "\<forall>c \<in> set y. is_digit c" and "\<forall>c \<in> set m. is_digit c"
  shows "infer_store_name (x @ [95] @ y @ [95] @ m @ str ''.csv'') = x
       \<and> (name \<in> set (list_input_csvs (Some names) (y @ [45] @ m)) \<longrightarrow>
            (\<exists>x'. name = x' @ [95] @ y @ [95] @ m @ str ''.csv'' \<and> infer_store_name name = x'))
       \<and> (length (split 95 (stem name')) < 3 \<longrightarrow> infer_store_name name' = stem name')"
proof -
  from assms have u: "95 \<notin> set y" "95 \<notin> set m" by (auto simp: is_digit_def)
  have a: "infer_store_name (x' @ [95] @ y @ [95] @ m @ str ''.csv'') = x'" for x'
    using u by (rule infer_store_name_suffix)
  have r: "replace_char 45 95 (y @ [45] @ m) = y @ [95] @ m"
    using assms replace_char_digits [of y] replace_char_digits [of m]
    by (simp add: replace_char_def)
  have b: "\<exists>x'. name = x' @ [95] @ y @ [95] @ m @ str ''.csv'' \<and> infer_store_name name = x'"
    if "name \<in> set (list_input_csvs (Some names) (y @ [45] @ m))"
  proof -
    from that have "endswith name ([95] @ (y @ [95] @ m) @ str ''.csv'')"
      unfolding list_input_csvs_def Let_def r by simp
    then obtain x' where "name = x' @ [95] @ (y @ [95] @ m) @ str ''.csv''"
      by (blast dest: endswith_split)
    then have "name = x' @ [95] @ y @ [95] @ m @ str ''.csv''" by simp
    with a [of x'] show ?thesis by blast
  qed
  have c: "infer_store_name name' = stem name'" if "length (split 95 (stem name')) < 3"
    using that by (simp add: infer_store_name_def Let_def)
  from a [of x] b c show ?thesis by blast
qed

theorem infer_store_name_label_witness:
  "list_all is_digit (str ''2026'') \<and> list_all is_digit (str ''01'')
   \<and> infer_store_name (str ''store_a_2026_01.csv'') = str ''store_a''
   \<and> list_input_csvs (Some [str ''store_b_2026_01.csv'', str ''store_a_2026_02.csv'',
                             str ''store_a_2026_01.csv'', str ''notes.txt'']) (str ''2026-01'')
       = [str ''store_a_2026_01.csv'', str ''store_b_2026_01.csv'']
   \<and> length (split 95 (stem (str ''tokyo_2026.csv''))) < 3
   \<and> infer_store_name (str ''tokyo_2026.csv'') = str ''tokyo_2026''"
proof -
  have y: "\<forall>c \<in> set (str ''2026''). is_digit c" by (simp add: str_def is_digit_def)
  have m: "\<forall>c \<in> set (str ''01''). is_digit c" by (simp add: str_def is_digit_def)
  have s: "stem (str ''tokyo_2026.csv'') = str ''tokyo_2026''"
    by (simp add: stem_def rfind_def str_def)
  have l: "length (split 95 (stem (str ''tokyo_2026.csv''))) < 3"
    unfolding s by (simp add: str_def)
  have f: "list_input_csvs (Some [str ''store_b_2026_01.csv'', str ''store_a_2026_02.csv'',
                             str ''store_a_2026_01.csv'', str ''notes.txt'']) (str ''2026-01'')
       = [str ''store_a_2026_01.csv'', str ''store_b_2026_01.csv'']"
    by (simp add: list_input_csvs_def endswith_def replace_char_def str_def)
  note t = infer_store_name_label [OF y m, of "str ''store_a''" _ _ "str ''tokyo_2026.csv''"]
  have a: "infer_store_name (str ''store_a_2026_01.csv'') = str ''store_a''"
    using t [THEN conjunct1] by (simp add: str_def)
  have c: "infer_store_name (str ''tokyo_2026.csv'') = str ''tokyo_2026''"
    using t [THEN conjunct2, THEN conjunct2, THEN mp, OF l] s by simp
  from y m a f l c show ?thesis by (simp add: list_all_iff)
qed

section \<open>Tax\<close>

lemmas float_eval =
  calc_tax_def float_of_int_def float_mul_def round53_def overflows_def py_round_def
  round_half_even_def tax_rate_010_def bit_length.simps

text \<open>
  C8. The tax of a subtotal whose tenth ends in one half: the float product of \<open>25\<close>
  and \<open>0.10\<close> is exactly \<open>2.5\<close>, and \<open>round\<close> takes it to the even neighbour \<open>2\<close>,
  not away from zero to \<open>3\<close>; the invoice total follows as \<open>27\<close>. Likewise \<open>5\<close> gives
  the tax \<open>0\<close>.
\<close>

theorem calc_tax_ties_to_even:
  "calc_tax 25 tax_rate_010 = Inr 2 \<and> calc_tax 5 tax_rate_010 = Inr 0
   \<and> build_invoices [(str ''store_a'', 25)] (str ''2026-01'') tax_rate_010 (str ''2026-02-01'')
       = Inr [\<lparr>invoice_no = str ''INV-202601-store_a'', issue_date = str ''2026-02-01'',
                bill_to = str ''store_a'', subtotal = 25, tax_rate = tax_rate_010,
                tax = 2, total = 27\<rparr>]"
proof -
  have a: "calc_tax 25 tax_rate_010 = Inr 2" by (simp add: float_eval)
  have b: "calc_tax 5 tax_rate_010 = Inr 0" by (simp add: float_eval)
  have n: "make_invoice_no (str ''store_a'') (str ''2026-01'') = str ''INV-202601-store_a''"
    by (simp add: make_invoice_no_def remove_all_def replace_char_def str_def)
  from a b n show ?thesis by simp
qed

end
